theory Spec2Isabelle
  imports Complex_Main "HOL-Library.Word"
begin

section \<open>Library routines used by both firmware images\<close>

text \<open>
  The module firmware (\<^verbatim>\<open>inverter_module_2.ino\<close>) and the master firmware talk over a
  serial line in ASCII. Both sides lean on a handful of C library and Arduino core routines:
  \<^verbatim>\<open>isspace\<close>, \<^verbatim>\<open>atoi\<close>, \<^verbatim>\<open>atof\<close>, \<^verbatim>\<open>Serial.print\<close> of an integer and of a float.
  They are modelled here once, after the floating point arithmetic they rest on.
\<close>

subsection \<open>Single-precision arithmetic\<close>

text \<open>
  On the AVR both \<^verbatim>\<open>float\<close> and \<^verbatim>\<open>double\<close> are the 32-bit IEEE single format. A floating
  point value is modelled as the real number it stands for, and every conversion, constant and
  arithmetic step rounds its exact result to the nearest number with a 24-bit significand, a
  tie going to the even significand (\<open>fl\<close>). Comparisons are exact. The range of the
  exponent is not modelled: there is no overflow to infinity, no subnormal number and no
  not-a-number. The quantities of the module (a 10-bit converter, a temperature sensor) are far
  inside the range; on the master a numeral beyond the range of the format is outside the model.

  \<open>exponent2 y\<close> is the binary exponent of a positive \<open>y\<close>: the \<open>e\<close> with
  \<open>2 ^ e \<le> y < 2 ^ (e + 1)\<close>.
\<close>

function exponent2 :: "real \<Rightarrow> int" where
  "exponent2 y =
     (if y \<le> 0 then 0
      else if y < 1 then exponent2 (2 * y) - 1
      else if 2 \<le> y then exponent2 (y / 2) + 1
      else 0)"
  by pat_completeness auto

termination
proof (relation "measure (\<lambda>y. 2 * nat \<lceil>1 / y\<rceil> + nat \<lceil>y\<rceil>)")
  show "wf (measure (\<lambda>y. 2 * nat \<lceil>1 / y\<rceil> + nat \<lceil>y\<rceil>))" by simp
next
  fix y :: real
  assume a: "\<not> y \<le> 0" "y < 1"
  define z where "z = 1 / y"
  have z: "1 < z" using a by (simp add: z_def)
  then have c: "2 \<le> \<lceil>z\<rceil>" by linarith
  have "z \<le> of_int \<lceil>z\<rceil>" by linarith
  then have "z / 2 \<le> of_int \<lceil>z\<rceil> / 2" by simp
  also have "\<dots> \<le> of_int (\<lceil>z\<rceil> - 1)" using c by simp
  finally have h: "\<lceil>z / 2\<rceil> \<le> \<lceil>z\<rceil> - 1" by (simp only: ceiling_le_iff)
  have "1 / (2 * y) = z / 2" by (simp add: z_def)
  then have c2: "\<lceil>1 / (2 * y)\<rceil> < \<lceil>1 / y\<rceil>" using h by (simp only: z_def)
  have c3: "\<lceil>2 * y\<rceil> \<le> 2" using a by (simp add: ceiling_le_iff)
  have c4: "\<lceil>y\<rceil> = 1" using a by (intro ceiling_unique) auto
  have "0 < 1 / (2 * y)" using a by simp
  then have c6: "\<lceil>1 / (2 * y)\<rceil> \<ge> 1" by linarith
  show "(2 * y, y) \<in> measure (\<lambda>y. 2 * nat \<lceil>1 / y\<rceil> + nat \<lceil>y\<rceil>)"
    unfolding in_measure using c2 c3 c4 c6 by linarith
next
  fix y :: real
  assume a: "\<not> y \<le> 0" "\<not> y < 1" "2 \<le> y"
  have c: "2 \<le> \<lceil>y\<rceil>" using a by linarith
  have "y \<le> of_int \<lceil>y\<rceil>" by linarith
  then have "y / 2 \<le> of_int \<lceil>y\<rceil> / 2" by simp
  also have "\<dots> \<le> of_int (\<lceil>y\<rceil> - 1)" using c by simp
  finally have c3: "\<lceil>y / 2\<rceil> \<le> \<lceil>y\<rceil> - 1" by (simp only: ceiling_le_iff)
  have c1: "\<lceil>1 / y\<rceil> = 1" using a by (intro ceiling_unique) auto
  have c2: "\<lceil>1 / (y / 2)\<rceil> = 1" using a by (intro ceiling_unique) auto
  have "0 < y / 2" using a by simp
  then have c4: "\<lceil>y / 2\<rceil> \<ge> 1" by linarith
  show "(y / 2, y) \<in> measure (\<lambda>y. 2 * nat \<lceil>1 / y\<rceil> + nat \<lceil>y\<rceil>)"
    unfolding in_measure using c1 c2 c3 c4 by linarith
qed

declare exponent2.simps [simp del]

text \<open>Rounding to the nearest integer, a half going to the even neighbour.\<close>

definition round_even :: "real \<Rightarrow> int" where
  "round_even x =
     (let n = \<lfloor>x\<rfloor>; f = x - of_int n
      in if f < 1 / 2 then n else if 1 / 2 < f then n + 1 else if even n then n else n + 1)"

text \<open>
  Rounding to single precision: the value is scaled so that its magnitude lies between
  \<open>2 ^ 23\<close> and \<open>2 ^ 24\<close>, rounded to an integer, and scaled back.
\<close>

definition fl :: "real \<Rightarrow> real" where
  "fl x =
     (if x = 0 then 0
      else (let u = 2 powi (exponent2 \<bar>x\<bar> - 23) in of_int (round_even (x / u)) * u))"

subsection \<open>Characters, integers and floats as text\<close>

definition NUL :: char where
  "NUL = CHR 0x00"

definition CR :: char where
  "CR = CHR 0x0D"

definition LF :: char where
  "LF = CHR 0x0A"

definition isspace :: "char \<Rightarrow> bool" where
  "isspace c = (c = CHR '' '' \<or> c = CHR 0x09 \<or> c = CHR 0x0A \<or> c = CHR 0x0B
     \<or> c = CHR 0x0C \<or> c = CHR 0x0D)"

definition isdigit :: "char \<Rightarrow> bool" where
  "isdigit c = (48 \<le> (of_char c :: nat) \<and> (of_char c :: nat) \<le> 57)"

text \<open>A C string inside a buffer: the characters from an offset up to the first NUL.\<close>

definition cstr :: "char list \<Rightarrow> nat \<Rightarrow> string" where
  "cstr buf off = takeWhile (\<lambda>c. c \<noteq> NUL) (drop off buf)"

text \<open>
  \<^verbatim>\<open>Print::printNumber\<close> in base 10: the digits are produced by repeated division, least
  significant first, and written most significant first; zero prints as one digit.
\<close>

fun print_number :: "nat \<Rightarrow> string" where
  "print_number n =
     (if n < 10 then [char_of (48 + n)]
      else print_number (n div 10) @ [char_of (48 + n mod 10)])"

declare print_number.simps [simp del]

text \<open>\<^verbatim>\<open>Print::print(int)\<close>: a minus sign and the magnitude for a negative value.\<close>

definition print_int :: "int \<Rightarrow> string" where
  "print_int i = (if i < 0 then CHR ''-'' # print_number (nat (- i)) else print_number (nat i))"

text \<open>
  \<^verbatim>\<open>Print::printFloat(number, digits)\<close>: values beyond the range of an unsigned long print as
  \<^verbatim>\<open>ovf\<close>; otherwise the sign, then the magnitude plus half a unit of the last digit, its
  integer part, a point, and the fractional digits peeled off one at a time. Every step is a
  single-precision operation: the half unit is 0.5 divided by ten once per digit, the
  remainder is multiplied by ten and the digit, converted back to a float, subtracted from it.
\<close>

fun rounding :: "nat \<Rightarrow> real" where
  "rounding 0 = 1 / 2"
| "rounding (Suc k) = fl (rounding k / 10)"

fun print_frac :: "nat \<Rightarrow> real \<Rightarrow> string" where
  "print_frac 0 remainder = []"
| "print_frac (Suc k) remainder =
     (let r = fl (remainder * 10); toPrint = nat \<lfloor>r\<rfloor>
      in print_number toPrint @ print_frac k (fl (r - fl (real toPrint))))"

definition printFloat :: "real \<Rightarrow> nat \<Rightarrow> string" where
  "printFloat number digits =
     (if number > 4294967040 then ''ovf''
      else if number < - 4294967040 then ''ovf''
      else
        (let sgn = (if number < 0 then ''-'' else []);
             n = fl ((if number < 0 then - number else number) + rounding digits);
             int_part = nat \<lfloor>n\<rfloor>
         in sgn @ print_number int_part @ (if digits > 0 then ''.'' else [])
              @ print_frac digits (fl (n - fl (real int_part)))))"

text \<open>\<^verbatim>\<open>Serial.print(float)\<close> uses two fractional digits.\<close>

definition print_float :: "real \<Rightarrow> string" where
  "print_float x = printFloat x 2"

text \<open>
  \<^verbatim>\<open>atoi\<close> of avr-libc: leading white space is skipped, an optional sign is read, then
  decimal digits are accumulated until the first other character. The accumulator is a 16-bit
  register and overflow is not detected, so the result is the value modulo \<open>2 ^ 16\<close> read as
  a signed 16-bit integer.
\<close>

fun atoi_digits :: "nat \<Rightarrow> string \<Rightarrow> nat" where
  "atoi_digits acc [] = acc"
| "atoi_digits acc (c # cs) =
     (if isdigit c then atoi_digits (acc * 10 + (of_char c - 48)) cs else acc)"

definition atoi :: "string \<Rightarrow> int" where
  "atoi s =
     (case dropWhile isspace s of
        [] \<Rightarrow> 0
      | c # cs \<Rightarrow>
          if c = CHR ''-'' then sint (- (word_of_nat (atoi_digits 0 cs) :: 16 word))
          else if c = CHR ''+'' then sint (word_of_nat (atoi_digits 0 cs) :: 16 word)
          else sint (word_of_nat (atoi_digits 0 (c # cs)) :: 16 word))"





section \<open>Master controller: the telemetry table and its parser\<close>

text \<open>
  One slot per module id (\<^verbatim>\<open>mod_st[MODULES]\<close>). The fields keep the source's names with the
  prefix \<open>st_\<close>.
\<close>

definition MODULES :: nat where
  "MODULES = 4"

record module_status =
  st_v :: real
  st_a :: real
  st_w :: real
  st_c :: real
  st_pwm :: int
  st_temp :: real
  st_fan :: int
  st_state :: int
  st_error :: int
  st_last_tx :: "32 word"
  st_last_reset :: "32 word"


text \<open>The assignment \<^verbatim>\<open>mod_st[module].field = value\<close>, for a module id already range-checked.\<close>

definition set_slot :: "int \<Rightarrow> (module_status \<Rightarrow> module_status) \<Rightarrow> module_status list \<Rightarrow> module_status list" where
  "set_slot module_no f tbl = tbl[nat module_no := f (tbl ! nat module_no)]"




text \<open>The table at boot: every field zero.\<close>

definition mod_st_zero :: module_status where
  "mod_st_zero = \<lparr>st_v = 0, st_a = 0, st_w = 0, st_c = 0, st_pwm = 0, st_temp = 0,
     st_fan = 0, st_state = 0, st_error = 0, st_last_tx = 0, st_last_reset = 0\<rparr>"

definition table_zero :: "module_status list" where
  "table_zero = replicate MODULES mod_st_zero"


section \<open>Master controller: supervisory safety and recovery\<close>

definition MAX_HWC_TEMP :: real where
  "MAX_HWC_TEMP = 75.0"

definition MIN_HWC_TEMP :: real where
  "MIN_HWC_TEMP = - 10.0"

definition EXTREME_HWC_TEMP :: real where
  "EXTREME_HWC_TEMP = 80.0"

definition MAINS_SEQUENCE_LENGTH :: nat where
  "MAINS_SEQUENCE_LENGTH = 30"

text \<open>
  The master's globals that the supervisory code touches. The display and the RF
  transmitter only consume the table and are left out; \<open>master_serial_out\<close> is what has been
  written to \<^verbatim>\<open>Serial\<close>.
\<close>

record master =
  mod_st :: "module_status list"
  mains_pos :: "8 word list"
  mains_neg :: "8 word list"
  mod_display :: int
  hwc_temp :: real
  master_timeout_temp :: "32 word"
  master_serial_out :: string

definition master_boot :: master where
  "master_boot = \<lparr>mod_st = table_zero,
     mains_pos = [1,1,1,1,1,1,1,1,0,0,0,0,0,0,0,0,0,0,0,0,0,0,0,0,0,0,0,0,0,0],
     mains_neg = [0,0,0,0,0,0,0,0,0,0,0,0,0,0,0,1,1,1,1,1,1,1,1,0,0,0,0,0,0,0],
     mod_display = 0, hwc_temp = 0, master_timeout_temp = 0, master_serial_out = []\<rparr>"

text \<open>\<^verbatim>\<open>Serial.print\<close> and \<^verbatim>\<open>Serial.println\<close> on the master.\<close>

definition master_print :: "string \<Rightarrow> master \<Rightarrow> master" where
  "master_print txt s = s\<lparr>master_serial_out := master_serial_out s @ txt\<rparr>"

definition master_println :: "string \<Rightarrow> master \<Rightarrow> master" where
  "master_println txt s = master_print (txt @ [CR, LF]) s"

text \<open>
  The temperature read with its retries: up to five readings, stopping at the first one
  above \<open>-125\<close>; \<open>h\<close> is the value \<^verbatim>\<open>hwc_temp\<close> holds so far.
\<close>

fun read_hwc :: "real list \<Rightarrow> real \<Rightarrow> real" where
  "read_hwc [] h = h"
| "read_hwc (r # rs) h = (if r > - 125 then r else read_hwc rs r)"

text \<open>
  One round of the halt loop of the thermal check, for loop index \<open>i\<close>: the test looks at
  \<^verbatim>\<open>mod_st[i].state\<close>, the command printed carries \<^verbatim>\<open>mod_display\<close>.
\<close>

definition halt_round :: "nat \<Rightarrow> master \<Rightarrow> master" where
  "halt_round i s =
     (if st_state (mod_st s ! i) \<noteq> 5 then
        master_println '';'' (master_print (print_int (mod_display s)) (master_print ''h'' s))
      else s)"

definition zero_round :: "nat \<Rightarrow> master \<Rightarrow> master" where
  "zero_round i s = s\<lparr>mains_pos := (mains_pos s)[i := 0], mains_neg := (mains_neg s)[i := 0]\<rparr>"

text \<open>The body of the ten-second check once the temperature has been read.\<close>

definition thermal_interlock :: "master \<Rightarrow> master" where
  "thermal_interlock s =
     (if hwc_temp s < MIN_HWC_TEMP \<or> hwc_temp s > MAX_HWC_TEMP then
        (let s1 = fold halt_round [0..<MODULES] s
         in if hwc_temp s1 > EXTREME_HWC_TEMP
            then fold zero_round [0..<MAINS_SEQUENCE_LENGTH] s1
            else s1)
      else s)"

text \<open>
  The whole check: \<open>t\<close> and \<open>t'\<close> are the readings of \<^verbatim>\<open>millis()\<close> in the test and in the
  final assignment, \<open>sensor\<close> the successive sensor readings.
\<close>

definition thermal_check :: "32 word \<Rightarrow> 32 word \<Rightarrow> real list \<Rightarrow> master \<Rightarrow> master" where
  "thermal_check t t' sensor s =
     (if t > master_timeout_temp s + 10000 then
        (thermal_interlock (s\<lparr>hwc_temp := read_hwc (take 5 sensor) (hwc_temp s)\<rparr>))
          \<lparr>master_timeout_temp := t'\<rparr>
      else s)"

text \<open>
  The auto-recovery loop, one round for module \<open>i\<close>: \<open>t\<close> is the reading of
  \<^verbatim>\<open>millis()\<close> in the test, \<open>t'\<close> the reading stored in \<^verbatim>\<open>last_reset\<close>.
\<close>

definition reset_due :: "32 word \<Rightarrow> module_status \<Rightarrow> bool" where
  "reset_due t r = (st_error r = 5 \<and> st_v r > 50.0 \<and> t > st_last_reset r + 10000)"

definition auto_reset_round :: "32 word \<Rightarrow> 32 word \<Rightarrow> nat \<Rightarrow> master \<Rightarrow> master" where
  "auto_reset_round t t' i s =
     (if reset_due t (mod_st s ! i) then
        (let s1 = master_println '';'' (master_print (print_int (int i)) (master_print ''r'' s))
         in s1\<lparr>mod_st := (mod_st s1)[i := (mod_st s1 ! i)\<lparr>st_error := 0, st_last_reset := t'\<rparr>]\<rparr>)
      else s)"

definition auto_reset :: "(nat \<Rightarrow> 32 word) \<Rightarrow> (nat \<Rightarrow> 32 word) \<Rightarrow> master \<Rightarrow> master" where
  "auto_reset t t' s = fold (\<lambda>i. auto_reset_round (t i) (t' i) i) [0..<MODULES] s"


section \<open>Module firmware\<close>

subsection \<open>Constants and state\<close>

definition EEPROM_ADDRESS_MAX_POWER :: nat where
  "EEPROM_ADDRESS_MAX_POWER = 0"

definition EEPROM_ADDRESS_HALTED :: nat where
  "EEPROM_ADDRESS_HALTED = 1"

definition MAX_POWER :: nat where
  "MAX_POWER = 425"

definition MIN_MAX_POWER :: nat where
  "MIN_MAX_POWER = 50"

definition SYS_OVER :: nat where
  "SYS_OVER = 2"

definition SYS_VIA :: nat where
  "SYS_VIA = 4"

definition SYS_VIB :: nat where
  "SYS_VIB = 5"

definition FAN_DRIVE :: nat where
  "FAN_DRIVE = 6"

definition SYS_ENABLE :: nat where
  "SYS_ENABLE = 8"

definition SYS_OUTPUT :: nat where
  "SYS_OUTPUT = 9"

definition SYS_PWM :: nat where
  "SYS_PWM = 11"

definition SYS_FAULT :: nat where
  "SYS_FAULT = 13"


definition LINE_LENGTH :: nat where
  "LINE_LENGTH = 10"

definition ERROR_NONE :: int where
  "ERROR_NONE = 0"

definition ERROR_UNDER_TEMP :: int where
  "ERROR_UNDER_TEMP = 1"

definition ERROR_OVER_TEMP :: int where
  "ERROR_OVER_TEMP = 2"

definition ERROR_UNDER_CURRENT :: int where
  "ERROR_UNDER_CURRENT = 3"

definition ERROR_OVER_CURRENT :: int where
  "ERROR_OVER_CURRENT = 4"

definition ERROR_CAP_VOLTAGE_LOW :: int where
  "ERROR_CAP_VOLTAGE_LOW = 5"

definition ERROR_CAP_VOLTAGE_HIGH :: int where
  "ERROR_CAP_VOLTAGE_HIGH = 6"

definition MIN_TEMPERATURE :: real where
  "MIN_TEMPERATURE = - 30.0"

definition MAX_TEMPERATURE :: real where
  "MAX_TEMPERATURE = 85.0"

definition FAN_ON_TEMP :: real where
  "FAN_ON_TEMP = 40.0"

definition FAN_OFF_TEMP :: real where
  "FAN_OFF_TEMP = 35.0"

datatype fsm = S0 | S1 | S2 | S3 | S4 | S5

text \<open>The numeric value of a state of the enumeration, as \<^verbatim>\<open>Serial.print(state)\<close> shows it.\<close>

fun fsm_number :: "fsm \<Rightarrow> nat" where
  "fsm_number S0 = 0"
| "fsm_number S1 = 1"
| "fsm_number S2 = 2"
| "fsm_number S3 = 3"
| "fsm_number S4 = 4"
| "fsm_number S5 = 5"

text \<open>
  The globals and the statics of \<^verbatim>\<open>loop\<close>, the hardware the firmware drives (the compare
  register \<^verbatim>\<open>OCR1B\<close>, the output pins, the EEPROM with a log of the writes made to it, the
  bytes written to \<^verbatim>\<open>Serial\<close>), and two counters that say how many readings of
  \<^verbatim>\<open>millis()\<close> and of \<^verbatim>\<open>fan_speed()\<close> have been taken so far. The global \<^verbatim>\<open>id\<close> is
  \<open>module_id\<close>.
\<close>

record module =
  module_id :: "8 word"
  pwm :: "16 word"
  state :: fsm
  timeout_pause :: "32 word"
  timeout_temp :: "32 word"
  flag_over :: bool
  error_code :: int
  max_power :: "16 word"
  cli :: "char list"
  cli_pos :: nat
  last_power :: real
  direction :: "16 word"
  temperature :: real
  OCR1B :: "16 word"
  pin :: "nat \<Rightarrow> bool"
  eeprom :: "nat \<Rightarrow> 8 word"
  eeprom_writes :: "(nat \<times> 8 word) list"
  serial_out :: string
  millis_calls :: nat
  fan_calls :: nat

text \<open>
  What the world supplies: the successive values of \<^verbatim>\<open>millis()\<close> and of
  \<^verbatim>\<open>fan_speed()\<close>, one per call.
\<close>

record env =
  millis_at :: "nat \<Rightarrow> 32 word"
  fan_speed_at :: "nat \<Rightarrow> 16 word"

text \<open>
  What one pass of \<^verbatim>\<open>loop\<close> reads: whether the over-voltage interrupt has fired since the
  last pass, the temperature sensor, the analogue inputs (a 10-bit converter) and the bytes
  waiting on the serial port.
\<close>

record inputs =
  in_over :: bool
  in_temp :: real
  in_voltage :: "10 word"
  in_current :: "nat \<Rightarrow> 10 word"
  in_cap :: "10 word"
  in_serial :: string

text \<open>The local variables \<^verbatim>\<open>voltage\<close>, \<^verbatim>\<open>current\<close>, \<^verbatim>\<open>power\<close> and \<^verbatim>\<open>cap_voltage\<close>.\<close>

record readings =
  rd_voltage :: real
  rd_current :: real
  rd_power :: real
  rd_cap_voltage :: real

definition now :: "env \<Rightarrow> module \<Rightarrow> 32 word" where
  "now e s = millis_at e (millis_calls s)"

definition tick :: "module \<Rightarrow> module" where
  "tick s = s\<lparr>millis_calls := Suc (millis_calls s)\<rparr>"

definition digitalWrite :: "nat \<Rightarrow> bool \<Rightarrow> module \<Rightarrow> module" where
  "digitalWrite p v s = s\<lparr>pin := (pin s)(p := v)\<rparr>"

definition EEPROM_write :: "nat \<Rightarrow> 8 word \<Rightarrow> module \<Rightarrow> module" where
  "EEPROM_write a v s =
     s\<lparr>eeprom := (eeprom s)(a := v), eeprom_writes := eeprom_writes s @ [(a, v)]\<rparr>"

definition serial_print :: "string \<Rightarrow> module \<Rightarrow> module" where
  "serial_print txt s = s\<lparr>serial_out := serial_out s @ txt\<rparr>"

subsection \<open>Sampling\<close>

text \<open>
  The analogue readings of one pass. \<^verbatim>\<open>sample_tot\<close> is a 16-bit sum of ten readings;
  \<open>R1 = 100000\<close> and \<open>R2 = 6800\<close>, so \<^verbatim>\<open>R1+R2\<close> is a long. Each conversion to float,
  each constant and each of the divisions, multiplications and the subtraction is rounded to
  single precision, in the order in which the expressions are evaluated.
\<close>

definition sense :: "inputs \<Rightarrow> readings" where
  "sense inp =
     (let voltage_sample = (ucast (in_voltage inp) :: 16 word);
          voltage = fl (fl (fl (fl (fl (real (unat voltage_sample)) / fl 1024) * fl 5)
                      * fl (100000 + 6800)) / fl 6800);
          sample_tot = fold (\<lambda>i tot. tot + (ucast (in_current inp i) :: 16 word)) [0..<10] 0;
          current_sample = sample_tot div 10;
          current0 = fl (fl (fl (real (unat current_sample)) / fl 1024) * fl 5);
          current1 = fl (current0 - fl 0.47);
          current = fl (current1 * fl 2.69)
      in \<lparr>rd_voltage = voltage, rd_current = current, rd_power = fl (voltage * current),
          rd_cap_voltage = fl (real (unat (in_cap inp)))\<rparr>)"

text \<open>The temperature poll and the fan, every ten seconds.\<close>

definition poll_temperature :: "env \<Rightarrow> inputs \<Rightarrow> module \<Rightarrow> module" where
  "poll_temperature e inp s =
     (if now e s > timeout_temp s + 10000 then
        (let s1 = (tick s)\<lparr>temperature := in_temp inp\<rparr>;
             s2 = (if temperature s1 > FAN_ON_TEMP then digitalWrite FAN_DRIVE True s1
                   else if temperature s1 < FAN_OFF_TEMP then digitalWrite FAN_DRIVE False s1
                   else s1)
         in (tick s2)\<lparr>timeout_temp := now e s2\<rparr>)
      else tick s)"

subsection \<open>Command handling\<close>

text \<open>The response to \<^verbatim>\<open>i<id>;\<close>: the information line and the error line.\<close>

definition info_line :: "module \<Rightarrow> readings \<Rightarrow> 16 word \<Rightarrow> string" where
  "info_line s rd fan =
     ''i;'' @ print_number (unat (module_id s)) @ '';'' @ print_number (fsm_number (state s))
       @ '';'' @ print_number (unat (pwm s)) @ '';'' @ print_float (rd_voltage rd)
       @ '';'' @ print_float (rd_current rd) @ '';'' @ print_float (rd_power rd)
       @ '';'' @ print_float (rd_cap_voltage rd) @ '';'' @ print_float (temperature s)
       @ '';'' @ print_number (unat fan)"

definition error_line :: "module \<Rightarrow> string" where
  "error_line s =
     ''e;'' @ print_number (unat (module_id s)) @ '';'' @ print_int (error_code s) @ '';''"

definition cmd_info :: "env \<Rightarrow> readings \<Rightarrow> module \<Rightarrow> module" where
  "cmd_info e rd s =
     (let fan = fan_speed_at e (fan_calls s);
          s1 = s\<lparr>fan_calls := Suc (fan_calls s)\<rparr>;
          s2 = serial_print (info_line s1 rd fan @ [CR, LF]) s1
      in serial_print (error_line s2 @ [CR, LF]) s2)"

definition cmd_halt :: "module \<Rightarrow> module" where
  "cmd_halt s =
     (let s1 = s\<lparr>OCR1B := 0\<rparr>;
          s2 = digitalWrite SYS_ENABLE False s1;
          s3 = digitalWrite SYS_OUTPUT False s2;
          s4 = (if state s3 \<noteq> S5 then EEPROM_write EEPROM_ADDRESS_HALTED 1 s3 else s3)
      in s4\<lparr>state := S5, pwm := 0\<rparr>)"

definition cmd_start :: "env \<Rightarrow> module \<Rightarrow> module" where
  "cmd_start e s =
     (let s1 = (if eeprom s EEPROM_ADDRESS_HALTED \<noteq> 0
                then EEPROM_write EEPROM_ADDRESS_HALTED 0 s else s);
          s2 = s1\<lparr>state := S0, pwm := 0\<rparr>
      in (tick s2)\<lparr>timeout_pause := now e s2, error_code := ERROR_NONE\<rparr>)"

definition cmd_reset :: "env \<Rightarrow> module \<Rightarrow> module" where
  "cmd_reset e s =
     (let s1 = s\<lparr>OCR1B := 0\<rparr>;
          s2 = digitalWrite SYS_ENABLE False s1;
          s3 = digitalWrite SYS_OUTPUT False s2;
          s4 = (if eeprom s3 EEPROM_ADDRESS_HALTED \<noteq> 0 then s3\<lparr>state := S5\<rparr>
                else s3\<lparr>state := S0\<rparr>);
          s5 = s4\<lparr>pwm := 0\<rparr>
      in (tick s5)\<lparr>timeout_pause := now e s5, error_code := ERROR_NONE\<rparr>)"

text \<open>
  \<^verbatim>\<open>p<id>:<watts>;\<close>. The number is read at \<^verbatim>\<open>cli + 3\<close> and stored in a 16-bit unsigned
  \<^verbatim>\<open>mp\<close>; the byte written to the EEPROM is \<^verbatim>\<open>max_power >> 1\<close>.
\<close>

definition cmd_power :: "module \<Rightarrow> module" where
  "cmd_power s =
     (let mp = (word_of_int (atoi (cstr (cli s) 3)) :: 16 word) in
      if mp \<ge> word_of_nat MIN_MAX_POWER \<and> mp \<le> word_of_nat MAX_POWER then
        (if mp \<noteq> max_power s then
           (let s1 = s\<lparr>max_power := mp\<rparr>
            in EEPROM_write EEPROM_ADDRESS_MAX_POWER (ucast (drop_bit 1 (max_power s1))) s1)
         else s)
      else s)"

text \<open>The \<^verbatim>\<open>switch\<close> on the command letter \<^verbatim>\<open>cli[0]\<close>.\<close>

definition command :: "env \<Rightarrow> readings \<Rightarrow> module \<Rightarrow> module" where
  "command e rd s =
     (let c = cli s ! 0 in
      if c = CHR ''i'' then cmd_info e rd s
      else if c = CHR ''h'' then cmd_halt s
      else if c = CHR ''s'' then cmd_start e s
      else if c = CHR ''r'' then cmd_reset e s
      else if c = CHR ''p'' then cmd_power s
      else s)"

text \<open>
  A complete line sits in \<^verbatim>\<open>cli\<close>, closed by a NUL at \<^verbatim>\<open>cli_pos\<close>: it is acted upon when it
  is longer than one character and the number after the command letter is this module's id.
\<close>

definition end_of_line :: "env \<Rightarrow> readings \<Rightarrow> module \<Rightarrow> module" where
  "end_of_line e rd s =
     (let s1 = s\<lparr>cli := (cli s)[cli_pos s := NUL]\<rparr>;
          s2 = (if cli_pos s1 > 1 \<and> atoi (cstr (cli s1) 1) = uint (module_id s1)
                then command e rd s1 else s1)
      in s2\<lparr>cli_pos := 0\<rparr>)"

text \<open>One round of the \<^verbatim>\<open>while (Serial.available() > 0)\<close> loop, for the byte read.\<close>

definition serial_byte :: "env \<Rightarrow> readings \<Rightarrow> char \<Rightarrow> module \<Rightarrow> module" where
  "serial_byte e rd c s =
     (let s1 = s\<lparr>cli := (cli s)[cli_pos s := c]\<rparr> in
      if isspace c then s1
      else if cli_pos s1 = LINE_LENGTH - 1 \<or> c = CHR '';'' then end_of_line e rd s1
      else s1\<lparr>cli_pos := Suc (cli_pos s1)\<rparr>)"

definition serial_input :: "env \<Rightarrow> readings \<Rightarrow> string \<Rightarrow> module \<Rightarrow> module" where
  "serial_input e rd bytes s = fold (serial_byte e rd) bytes s"

subsection \<open>The state machine\<close>

text \<open>
  The last step of state S3: the duty \<^verbatim>\<open>pwm\<close> moves by \<^verbatim>\<open>direction\<close> unless that would take it
  to 20 or below, or to 315 or above. \<^verbatim>\<open>pwm + direction\<close> is computed in 16-bit unsigned
  arithmetic; the sign test reads \<^verbatim>\<open>direction\<close> as a signed integer.
\<close>

definition mppt_apply :: "16 word \<Rightarrow> 16 word \<Rightarrow> 16 word" where
  "mppt_apply p d =
     (if sint d < 0 then (if p + d > 20 then p + d else p)
      else (if p + d < 315 then p + d else p))"

definition fsm_S0 :: "env \<Rightarrow> module \<Rightarrow> module" where
  "fsm_S0 e s =
     (if now e s > timeout_pause s + 3000 then (tick s)\<lparr>state := S1\<rparr> else tick s)"

definition fsm_S1 :: "readings \<Rightarrow> module \<Rightarrow> module" where
  "fsm_S1 rd s =
     (if rd_voltage rd > 18.0 then (digitalWrite SYS_ENABLE True s)\<lparr>state := S2, pwm := 0\<rparr>
      else s)"

definition fsm_S2 :: "env \<Rightarrow> readings \<Rightarrow> module \<Rightarrow> module" where
  "fsm_S2 e rd s =
     (let s1 = (if rd_voltage rd < 15.0 then
                  (let a = digitalWrite SYS_ENABLE False s
                   in (tick a)\<lparr>timeout_pause := now e a, pwm := 0, state := S0\<rparr>)
                else s);
          s2 = (if flag_over s1 \<and> rd_cap_voltage rd > 320 then
                  (digitalWrite SYS_OUTPUT True s1)\<lparr>state := S3, flag_over := False\<rparr>
                else s1)
      in if pwm s2 < 275 \<and> rd_voltage rd > 18.0 then s2\<lparr>pwm := pwm s2 + 1\<rparr>
         else if pwm s2 \<ge> 5 \<and> rd_voltage rd < 18.0 then s2\<lparr>pwm := pwm s2 - 5\<rparr>
         else s2)"

definition fsm_S3 :: "env \<Rightarrow> readings \<Rightarrow> module \<Rightarrow> module" where
  "fsm_S3 e rd s =
     (let s1 = (if rd_voltage rd < 15.0 then
                  (let a = digitalWrite SYS_OUTPUT False (digitalWrite SYS_ENABLE False s)
                   in (tick a)\<lparr>timeout_pause := now e a, state := S0, pwm := 0\<rparr>)
                else s);
          s2 = (if rd_voltage rd > 50.0 \<and> rd_current rd < 0.5 then s1\<lparr>direction := 1\<rparr>
                else if rd_power rd < last_power s1 then s1\<lparr>direction := direction s1 * (- 1)\<rparr>
                else s1);
          s3 = (if rd_power rd > real (unat (max_power s2)) \<or> rd_power rd > real MAX_POWER
                then s2\<lparr>direction := - 1\<rparr> else s2);
          s4 = (if pwm s3 = 0 then s3\<lparr>direction := 1\<rparr> else s3);
          s5 = s4\<lparr>last_power := rd_power rd\<rparr>
      in s5\<lparr>pwm := mppt_apply (pwm s5) (direction s5)\<rparr>)"

definition fsm_step :: "env \<Rightarrow> readings \<Rightarrow> module \<Rightarrow> module" where
  "fsm_step e rd s =
     (case state s of
        S0 \<Rightarrow> fsm_S0 e s
      | S1 \<Rightarrow> fsm_S1 rd s
      | S2 \<Rightarrow> fsm_S2 e rd s
      | S3 \<Rightarrow> fsm_S3 e rd s
      | S4 \<Rightarrow> s
      | S5 \<Rightarrow> s)"

subsection \<open>Safety interlocks and the hardware write\<close>

text \<open>What every interlock does when it trips.\<close>

definition fault :: "int \<Rightarrow> module \<Rightarrow> module" where
  "fault code s =
     (digitalWrite SYS_OUTPUT False (digitalWrite SYS_ENABLE False s))
       \<lparr>state := S4, pwm := 0, error_code := code\<rparr>"

text \<open>
  The six checks, in the order of the source; each sees the state the previous one left. Of
  the constants compared against, only \<open>0.1\<close> is not a single-precision number.
\<close>

definition interlocks :: "readings \<Rightarrow> module \<Rightarrow> module" where
  "interlocks rd s =
     (let s1 = (if state s \<noteq> S4 \<and> rd_cap_voltage rd < 12
                then fault ERROR_CAP_VOLTAGE_LOW s else s);
          s2 = (if state s1 \<noteq> S4 \<and> rd_cap_voltage rd > 370
                then fault ERROR_CAP_VOLTAGE_HIGH s1 else s1);
          s3 = (if state s2 = S2 \<and> pwm s2 > 1 \<and> pwm s2 < 5 \<and> rd_current rd > 2.0
                then fault ERROR_OVER_CURRENT s2 else s2);
          s4 = (if state s3 \<noteq> S4 \<and> rd_current rd < - fl 0.1
                then fault ERROR_UNDER_CURRENT s3 else s3);
          s5 = (if state s4 \<noteq> S4 \<and> temperature s4 > MAX_TEMPERATURE
                then fault ERROR_OVER_TEMP s4 else s4)
      in if state s5 \<noteq> S4 \<and> temperature s5 < MIN_TEMPERATURE
         then fault ERROR_UNDER_TEMP s5 else s5)"

text \<open>The fault indicator (active low) and the write of the duty to the compare register.\<close>

definition finish :: "module \<Rightarrow> module" where
  "finish s =
     (let s1 = (if state s = S4 then digitalWrite SYS_FAULT False s
                else digitalWrite SYS_FAULT True s)
      in if pwm s1 \<noteq> OCR1B s1 then s1\<lparr>OCR1B := pwm s1\<rparr> else s1)"

subsection \<open>One pass of the main loop, and start-up\<close>

definition loop :: "env \<Rightarrow> inputs \<Rightarrow> module \<Rightarrow> module" where
  "loop e inp s =
     (let s0 = s\<lparr>flag_over := (flag_over s \<or> in_over inp)\<rparr>;
          s1 = poll_temperature e inp s0;
          rd = sense inp;
          s2 = serial_input e rd (in_serial inp) s1;
          s3 = fsm_step e rd s2;
          s4 = interlocks rd s3
      in finish s4)"

text \<open>
  \<^verbatim>\<open>setup\<close>: \<open>dip1\<close> and \<open>dip2\<close> are the two switches read digitally (a closed switch
  reads low), \<open>dip3\<close> and \<open>dip4\<close> the two read through the converter; \<open>rom\<close> is the EEPROM
  as found.
\<close>

definition setup_module :: "bool \<Rightarrow> bool \<Rightarrow> 10 word \<Rightarrow> 10 word \<Rightarrow> (nat \<Rightarrow> 8 word) \<Rightarrow> module" where
  "setup_module dip1 dip2 dip3 dip4 rom =
     (let mp = 2 * (ucast (rom EEPROM_ADDRESS_MAX_POWER) :: 16 word) in
      \<lparr>module_id = (if \<not> dip1 then 8 else 0) + (if \<not> dip2 then 4 else 0)
           + (if dip3 < 5 then 2 else 0) + (if dip4 < 5 then 1 else 0),
       pwm = 0,
       state = (if rom EEPROM_ADDRESS_HALTED \<noteq> 0 then S5 else S0),
       timeout_pause = 0,
       timeout_temp = 0,
       flag_over = False,
       error_code = ERROR_NONE,
       max_power = (if mp < word_of_nat MIN_MAX_POWER then word_of_nat MIN_MAX_POWER else mp),
       cli = replicate LINE_LENGTH NUL,
       cli_pos = 0,
       last_power = 0,
       direction = - 1,
       temperature = 0,
       OCR1B = 0,
       pin = (\<lambda>p. p = SYS_PWM \<or> p = SYS_FAULT),
       eeprom = rom,
       eeprom_writes = [],
       serial_out = [],
       millis_calls = 0,
       fan_calls = 0\<rparr>)"



subsection \<open>Example states\<close>

text \<open>
  A module as \<^verbatim>\<open>setup\<close> leaves it with all four switches open (id 0) and a blank EEPROM, the
  same module in the boost state S2 at duty 3, and two sets of readings that differ in the
  capacitor voltage only.
\<close>

definition module_boot :: module where
  "module_boot = setup_module True True 1023 1023 (\<lambda>a. 0)"

definition module_boosting :: module where
  "module_boosting = module_boot\<lparr>state := S2, pwm := 3\<rparr>"

definition readings_short :: readings where
  "readings_short = \<lparr>rd_voltage = 30.5, rd_current = 2.5, rd_power = 76.25, rd_cap_voltage = 16\<rparr>"

definition readings_short_low_cap :: readings where
  "readings_short_low_cap =
     \<lparr>rd_voltage = 30.5, rd_current = 2.5, rd_power = 76.25, rd_cap_voltage = 11\<rparr>"

text \<open>
  The master's table after module 2 has reported error 5 (CapLow) and an input voltage of 55.
\<close>

definition master_caplow :: master where
  "master_caplow =
     master_boot\<lparr>mod_st := (mod_st master_boot)[2 := mod_st_zero\<lparr>st_v := 55, st_error := 5\<rparr>]\<rparr>"


definition env_still :: env where
  "env_still = \<lparr>millis_at = (\<lambda>n. 0), fan_speed_at = (\<lambda>n. 1000)\<rparr>"

text \<open>
  The state a halt line \<^verbatim>\<open>h<id>;\<close> leaves behind when it arrives at the start of a line: the
  line is in the buffer, closed by a NUL, and \<^verbatim>\<open>cmd_halt\<close> has run.
\<close>

definition halted :: "module \<Rightarrow> module" where
  "halted s = 
     (let s1 = s\<lparr>cli := ''h'' @ print_number (unat (module_id s)) @ NUL
                      # drop (Suc (Suc (length (print_number (unat (module_id s)))))) (cli s),
                   OCR1B := 0, pin := (pin s)(SYS_ENABLE := False, SYS_OUTPUT := False)\<rparr>;
           s2 = (if state s \<noteq> S5 then EEPROM_write EEPROM_ADDRESS_HALTED 1 s1 else s1)
       in s2\<lparr>state := S5, pwm := 0\<rparr>)"







text \<open>The inputs of a pass with a shorted output and a low capacitor reading.\<close>

definition inputs_short_low_cap :: inputs where
  "inputs_short_low_cap = \<lparr>in_over = False, in_temp = 20, in_voltage = 400,
     in_current = (\<lambda>i. 300), in_cap = 11, in_serial = []\<rparr>"


section \<open>The master's thermal check\<close>

text \<open>
  C1. The claim: whenever the ten-second check reads a temperature outside
  \<open>[MIN_HWC_TEMP, MAX_HWC_TEMP]\<close>, a halt command \<^verbatim>\<open>h<i>;\<close> goes out for every module \<open>i\<close>
  whose last known state is not 5, and above \<open>EXTREME_HWC_TEMP\<close> both waveform tables are
  zeroed. The source prints \<^verbatim>\<open>mod_display\<close> in place of the loop index. At boot (no module
  known to be halted, module 0 on display) and a reading of 90 degrees the four commands sent
  are all \<^verbatim>\<open>h0;\<close>: modules 1, 2 and 3 are never addressed. The tables are zeroed as claimed.
\<close>

theorem thermal_check_halts_displayed_module_only:
  "master_serial_out (thermal_check 10001 10002 [90] master_boot)
     = ''h0;'' @ [CR, LF] @ ''h0;'' @ [CR, LF] @ ''h0;'' @ [CR, LF] @ ''h0;'' @ [CR, LF]
   \<and> mains_pos (thermal_check 10001 10002 [90] master_boot) = replicate 30 0
   \<and> mains_neg (thermal_check 10001 10002 [90] master_boot) = replicate 30 0"
  by code_simp


section \<open>The master's parser\<close>

lemma length_set_slot [simp]: "length (set_slot m f t) = length t"
  by (simp add: set_slot_def)


lemma set_slot_same: "nat m < length t \<Longrightarrow> set_slot m f t ! nat m = f (t ! nat m)"
  by (simp add: set_slot_def)












section \<open>The S3 duty step\<close>

lemma mppt_apply_down: "21 < d \<Longrightarrow> d < 315 \<Longrightarrow> mppt_apply d (- 1) = d - 1"
  unfolding mppt_apply_def by (simp; unat_arith)

lemma mppt_apply_up: "20 < d \<Longrightarrow> d < 314 \<Longrightarrow> mppt_apply d 1 = d + 1"
  unfolding mppt_apply_def by (simp; unat_arith)

lemma mppt_apply_edges: "mppt_apply 21 (- 1) = 21 \<and> mppt_apply 314 1 = 314"
  unfolding mppt_apply_def by simp

text \<open>
  C3, as amended. With direction \<open>+1\<close> the step takes a duty \<open>d\<close> with \<open>20 < d < 314\<close> to
  \<open>d + 1\<close>; with direction \<open>-1\<close> it takes a duty \<open>d\<close> with \<open>21 < d < 315\<close> to \<open>d - 1\<close>. At
  \<open>d = 314\<close> the upward move and at \<open>d = 21\<close> the downward move are rejected and the duty is
  unchanged.
\<close>

theorem mppt_apply_steps:
  "(20 < d \<and> d < 314 \<longrightarrow> mppt_apply d 1 = d + 1)
     \<and> (21 < d \<and> d < 315 \<longrightarrow> mppt_apply d (- 1) = d - 1)
     \<and> mppt_apply 314 1 = 314
     \<and> mppt_apply 21 (- 1) = 21"
  using mppt_apply_down [of d] mppt_apply_up [of d] mppt_apply_edges by blast

theorem mppt_apply_steps_witness:
  "(20 :: 16 word) < 100 \<and> (100 :: 16 word) < 314 \<and> mppt_apply 100 1 = 101
     \<and> mppt_apply 100 (- 1) = 99"
  using mppt_apply_steps [of 100] by simp

text \<open>
  The claim as stated promises \<open>d + 1\<close> for every \<open>d\<close> with \<open>20 < d < 315\<close>; at \<open>d = 314\<close> the
  duty stays where it is.
\<close>

theorem mppt_apply_counterexample:
  "(20 :: 16 word) < 314 \<and> (314 :: 16 word) < 315 \<and> mppt_apply 314 1 \<noteq> 314 + 1"
  unfolding mppt_apply_def by simp


section \<open>The over-current interlock\<close>

lemma fault_fields [simp]:
  "state (fault c s) = S4" "pwm (fault c s) = 0" "error_code (fault c s) = c"
  "\<not> pin (fault c s) SYS_ENABLE" "\<not> pin (fault c s) SYS_OUTPUT"
  "OCR1B (fault c s) = OCR1B s" "temperature (fault c s) = temperature s"
  "direction (fault c s) = direction s"
  by (simp_all add: fault_def digitalWrite_def SYS_ENABLE_def SYS_OUTPUT_def)

lemma finish_fields [simp]:
  "state (finish s) = state s" "pwm (finish s) = pwm s" "error_code (finish s) = error_code s"
  "OCR1B (finish s) = pwm s" "direction (finish s) = direction s"
  "pin (finish s) SYS_ENABLE = pin s SYS_ENABLE" "pin (finish s) SYS_OUTPUT = pin s SYS_OUTPUT"
  "pin (finish s) SYS_FAULT = (state s \<noteq> S4)"
  by (simp_all add: finish_def digitalWrite_def Let_def SYS_ENABLE_def SYS_OUTPUT_def
      SYS_FAULT_def)

text \<open>
  The capacitor check comes first in the interlock pass: a pass that receives no command and
  reads a capacitor voltage below 12 ends in S4 with CapLow, whatever else it reads, unless the
  module was in S4 already.
\<close>

lemma state_poll_temperature: "state (poll_temperature e inp s) = state s"
  by (simp add: poll_temperature_def Let_def tick_def digitalWrite_def)

lemma fsm_step_not_S4: "state s \<noteq> S4 \<Longrightarrow> state (fsm_step e rd s) \<noteq> S4"
  by (cases "state s")
    (simp_all add: fsm_step_def fsm_S0_def fsm_S1_def fsm_S2_def fsm_S3_def Let_def tick_def
      digitalWrite_def)

lemma interlocks_cap_low:
  assumes "state s \<noteq> S4" "rd_cap_voltage rd < 12"
  shows "state (interlocks rd s) = S4" "error_code (interlocks rd s) = ERROR_CAP_VOLTAGE_LOW"
  using assms by (simp_all add: interlocks_def Let_def)

lemma cap_low_wins:
  assumes "state s \<noteq> S4" "in_serial inp = []" "rd_cap_voltage (sense inp) < 12"
  shows "state (loop e inp s) = S4" "error_code (loop e inp s) = ERROR_CAP_VOLTAGE_LOW"
proof -
  let ?s1 = "poll_temperature e inp (s\<lparr>flag_over := (flag_over s \<or> in_over inp)\<rparr>)"
  have "state ?s1 \<noteq> S4"
    using assms(1) by (simp add: state_poll_temperature)
  then have n: "state (fsm_step e (sense inp) ?s1) \<noteq> S4"
    by (rule fsm_step_not_S4)
  have l: "loop e inp s = finish (interlocks (sense inp) (fsm_step e (sense inp) ?s1))"
    by (simp add: loop_def Let_def assms(2) serial_input_def)
  show "state (loop e inp s) = S4" "error_code (loop e inp s) = ERROR_CAP_VOLTAGE_LOW"
    using interlocks_cap_low [OF n assms(3)] by (simp_all add: l)
qed

lemma sense_short_low_cap:
  "sense inputs_short_low_cap = \<lparr>rd_voltage = 2010353 / 65536,
     rd_current = 11224501 / 4194304, rd_power = 5379965 / 65536, rd_cap_voltage = 11\<rparr>"
proof -
  have "fold (\<lambda>i tot. tot + (300 :: 16 word)) [0..<10] 0 = 3000"
    by code_simp
  then show ?thesis
    by (simp add: sense_def inputs_short_low_cap_def Let_def fl_def exponent2.simps
        round_even_def)
qed

text \<open>
  C4, as amended. When the interlock pass starts in state S2 with the duty strictly between 1
  and 5 and a measured current above 2.0 A, the pass ends in S4 with the duty and the compare
  register at 0 and the drive and the relay low. The error code is OverCurrent when the
  capacitor voltage lies within \<open>[12, 370]\<close>; below 12 the capacitor check, which comes first,
  has already recorded CapLow, and above 370 CapHigh.
\<close>

theorem overcurrent_interlock:
  assumes "state s = S2" "1 < pwm s" "pwm s < 5" "rd_current rd > 2.0"
  shows "state (finish (interlocks rd s)) = S4
    \<and> pwm (finish (interlocks rd s)) = 0
    \<and> OCR1B (finish (interlocks rd s)) = 0
    \<and> \<not> pin (finish (interlocks rd s)) SYS_ENABLE
    \<and> \<not> pin (finish (interlocks rd s)) SYS_OUTPUT
    \<and> error_code (finish (interlocks rd s)) =
        (if rd_cap_voltage rd < 12 then ERROR_CAP_VOLTAGE_LOW
         else if rd_cap_voltage rd > 370 then ERROR_CAP_VOLTAGE_HIGH
         else ERROR_OVER_CURRENT)"
  using assms by (simp add: interlocks_def Let_def)


theorem overcurrent_interlock_witness:
  "state module_boosting = S2 \<and> 1 < pwm module_boosting \<and> pwm module_boosting < 5
     \<and> rd_current readings_short > 2.0
     \<and> state (finish (interlocks readings_short module_boosting)) = S4
     \<and> error_code (finish (interlocks readings_short module_boosting)) = ERROR_OVER_CURRENT"
proof -
  have h: "state module_boosting = S2" "1 < pwm module_boosting" "pwm module_boosting < 5"
    "rd_current readings_short > 2.0"
    by (simp_all add: module_boosting_def readings_short_def)
  have c: "\<not> rd_cap_voltage readings_short < 12" "\<not> rd_cap_voltage readings_short > 370"
    by (simp_all add: readings_short_def)
  from overcurrent_interlock [OF h] h c show ?thesis
    by simp
qed

text \<open>
  The specification promises OverCurrent whenever state, duty and current are as described.
  With the capacitor reading 11 V the module is in S2 at duty 3 with more than 2 A, and the
  error recorded is CapLow: by the interlock pass alone, and by a whole pass of the loop from
  that state (30.7 V, 2.68 A, no command received).
\<close>

theorem overcurrent_interlock_counterexample:
  "state module_boosting = S2 \<and> 1 < pwm module_boosting \<and> pwm module_boosting < 5
     \<and> rd_current readings_short_low_cap > 2.0
     \<and> error_code (finish (interlocks readings_short_low_cap module_boosting))
         = ERROR_CAP_VOLTAGE_LOW
     \<and> rd_current (sense inputs_short_low_cap) > 2.0
     \<and> state (loop env_still inputs_short_low_cap module_boosting) = S4
     \<and> error_code (loop env_still inputs_short_low_cap module_boosting) = ERROR_CAP_VOLTAGE_LOW
     \<and> ERROR_CAP_VOLTAGE_LOW \<noteq> ERROR_OVER_CURRENT"
proof -
  have a: "state module_boosting = S2" "1 < pwm module_boosting" "pwm module_boosting < 5"
    "rd_current readings_short_low_cap > 2.0"
    "error_code (finish (interlocks readings_short_low_cap module_boosting))
       = ERROR_CAP_VOLTAGE_LOW"
    "ERROR_CAP_VOLTAGE_LOW \<noteq> ERROR_OVER_CURRENT"
    by (simp_all add: module_boosting_def readings_short_low_cap_def interlocks_def Let_def
        ERROR_CAP_VOLTAGE_LOW_def ERROR_OVER_CURRENT_def)
  have b: "state module_boosting \<noteq> S4" "in_serial inputs_short_low_cap = []"
    "rd_cap_voltage (sense inputs_short_low_cap) < 12"
    "rd_current (sense inputs_short_low_cap) > 2.0"
    by (simp_all add: module_boosting_def sense_short_low_cap)
      (simp add: inputs_short_low_cap_def)
  show ?thesis
    using a b(4) cap_low_wins [OF b(1,2,3), of env_still] by simp
qed


section \<open>The master's automatic reset\<close>

lemma auto_reset_round_eq:
  "auto_reset_round t t' i s =
     (if reset_due t (mod_st s ! i)
      then s\<lparr>master_serial_out := master_serial_out s @ ''r'' @ print_number i @ '';'' @ [CR, LF],
             mod_st := (mod_st s)[i := (mod_st s ! i)\<lparr>st_error := 0, st_last_reset := t'\<rparr>]\<rparr>
      else s)"
  by (simp add: auto_reset_round_def master_println_def master_print_def print_int_def Let_def)

text \<open>
  The rounds of the loop touch different slots, so each round sees the record of its module as
  it was before the loop.
\<close>

lemma auto_reset_rounds:
  assumes "distinct js" "\<forall>j \<in> set js. j < length (mod_st s)"
  shows "master_serial_out (fold (\<lambda>i. auto_reset_round (t i) (t' i) i) js s)
           = master_serial_out s @ concat (map (\<lambda>i. if reset_due (t i) (mod_st s ! i)
                 then ''r'' @ print_number i @ '';'' @ [CR, LF] else []) js)
       \<and> length (mod_st (fold (\<lambda>i. auto_reset_round (t i) (t' i) i) js s)) = length (mod_st s)
       \<and> (\<forall>i < length (mod_st s).
             mod_st (fold (\<lambda>i. auto_reset_round (t i) (t' i) i) js s) ! i
               = (if i \<in> set js \<and> reset_due (t i) (mod_st s ! i)
                  then (mod_st s ! i)\<lparr>st_error := 0, st_last_reset := t' i\<rparr>
                  else mod_st s ! i))"
  using assms
proof (induction js arbitrary: s)
  case Nil
  then show ?case by simp
next
  case (Cons j js)
  let ?s1 = "auto_reset_round (t j) (t' j) j s"
  have len: "length (mod_st ?s1) = length (mod_st s)"
    by (simp add: auto_reset_round_eq)
  have other: "\<And>i. i \<noteq> j \<Longrightarrow> mod_st ?s1 ! i = mod_st s ! i"
    by (simp add: auto_reset_round_eq)
  have same: "mod_st ?s1 ! j = (if reset_due (t j) (mod_st s ! j)
        then (mod_st s ! j)\<lparr>st_error := 0, st_last_reset := t' j\<rparr> else mod_st s ! j)"
    using Cons.prems by (simp add: auto_reset_round_eq)
  have out: "master_serial_out ?s1 = master_serial_out s @
       (if reset_due (t j) (mod_st s ! j) then ''r'' @ print_number j @ '';'' @ [CR, LF] else [])"
    by (simp add: auto_reset_round_eq)
  have d: "distinct js" and nj: "j \<notin> set js" using Cons.prems by auto
  have b: "\<forall>k \<in> set js. k < length (mod_st ?s1)" using Cons.prems len by auto
  note IH = Cons.IH [OF d b]
  have m: "map (\<lambda>i. if reset_due (t i) (mod_st ?s1 ! i)
                 then ''r'' @ print_number i @ '';'' @ [CR, LF] else []) js
         = map (\<lambda>i. if reset_due (t i) (mod_st s ! i)
                 then ''r'' @ print_number i @ '';'' @ [CR, LF] else []) js"
  proof (rule map_cong [OF refl])
    fix x assume "x \<in> set js"
    then have "x \<noteq> j" using nj by auto
    then show "(if reset_due (t x) (mod_st ?s1 ! x)
                 then ''r'' @ print_number x @ '';'' @ [CR, LF] else [])
          = (if reset_due (t x) (mod_st s ! x)
                 then ''r'' @ print_number x @ '';'' @ [CR, LF] else [])"
      by (simp add: other)
  qed
  have p1: "master_serial_out (fold (\<lambda>i. auto_reset_round (t i) (t' i) i) (j # js) s)
           = master_serial_out s @ concat (map (\<lambda>i. if reset_due (t i) (mod_st s ! i)
                 then ''r'' @ print_number i @ '';'' @ [CR, LF] else []) (j # js))"
    using IH by (simp add: out m)
  have p2: "length (mod_st (fold (\<lambda>i. auto_reset_round (t i) (t' i) i) (j # js) s))
           = length (mod_st s)"
    using IH by (simp add: len)
  have p3: "mod_st (fold (\<lambda>i. auto_reset_round (t i) (t' i) i) (j # js) s) ! i
               = (if i \<in> set (j # js) \<and> reset_due (t i) (mod_st s ! i)
                  then (mod_st s ! i)\<lparr>st_error := 0, st_last_reset := t' i\<rparr>
                  else mod_st s ! i)" if "i < length (mod_st s)" for i
  proof (cases "i = j")
    case True
    then show ?thesis using IH that nj by (simp add: len same)
  next
    case False
    then show ?thesis using IH that by (simp add: len other)
  qed
  show ?case using p1 p2 p3 by blast
qed

lemma reset_not_due:
  assumes "unat (st_last_reset r) + 10000 < 2 ^ 32" "unat u \<le> unat (st_last_reset r) + 10000"
  shows "\<not> reset_due u r"
proof -
  have "unat (st_last_reset r + 10000) = unat (st_last_reset r) + 10000"
    using assms(1) by (simp add: unat_word_ariths)
  then have "u \<le> st_last_reset r + 10000"
    using assms(2) by (simp add: word_le_nat_alt)
  then show ?thesis by (simp add: reset_due_def not_less)
qed

text \<open>
  C5, as amended. In one pass of the recovery loop the master sends \<^verbatim>\<open>r<i>;\<close> for module \<open>i\<close>
  exactly when the cached error of \<open>i\<close> is 5 (CapLow), its cached voltage exceeds 50.0 and
  \<^verbatim>\<open>millis()\<close> is strictly greater than \<^verbatim>\<open>last_reset + 10000\<close> (32-bit unsigned arithmetic);
  the commands go out in the order of the ids and nothing else is written. On sending, the
  cached error becomes 0 and \<^verbatim>\<open>last_reset\<close> the time of the attempt; the other records are
  untouched. After an attempt at time \<open>t' i\<close>, no reset is due for \<open>i\<close> at any time up to and
  including \<open>t' i + 10000\<close>, whatever error and voltage are cached by then (as long as the
  counter of milliseconds has not wrapped around).
\<close>

theorem auto_reset_sends_when_due:
  assumes "length (mod_st s) = MODULES"
  shows "master_serial_out (auto_reset t t' s)
           = master_serial_out s @ concat (map (\<lambda>i. if reset_due (t i) (mod_st s ! i)
                 then ''r'' @ print_number i @ '';'' @ [CR, LF] else []) [0..<MODULES])
     \<and> (\<forall>i < MODULES.
           mod_st (auto_reset t t' s) ! i
             = (if reset_due (t i) (mod_st s ! i)
                then (mod_st s ! i)\<lparr>st_error := 0, st_last_reset := t' i\<rparr>
                else mod_st s ! i))
     \<and> (\<forall>i < MODULES. \<forall>u e v.
           reset_due (t i) (mod_st s ! i) \<and> unat (t' i) + 10000 < 2 ^ 32
             \<and> unat u \<le> unat (t' i) + 10000
           \<longrightarrow> \<not> reset_due u ((mod_st (auto_reset t t' s) ! i)\<lparr>st_error := e, st_v := v\<rparr>))"
proof -
  have b: "\<forall>j \<in> set [0..<MODULES]. j < length (mod_st s)"
    using assms by simp
  note r = auto_reset_rounds [OF distinct_upt b, of t t', folded auto_reset_def]
  have p1: "master_serial_out (auto_reset t t' s)
           = master_serial_out s @ concat (map (\<lambda>i. if reset_due (t i) (mod_st s ! i)
                 then ''r'' @ print_number i @ '';'' @ [CR, LF] else []) [0..<MODULES])"
    using r by blast
  have p2: "mod_st (auto_reset t t' s) ! i
             = (if reset_due (t i) (mod_st s ! i)
                then (mod_st s ! i)\<lparr>st_error := 0, st_last_reset := t' i\<rparr>
                else mod_st s ! i)" if "i < MODULES" for i
    using r that assms by simp
  have p3: "\<not> reset_due u ((mod_st (auto_reset t t' s) ! i)\<lparr>st_error := e, st_v := v\<rparr>)"
    if "i < MODULES" "reset_due (t i) (mod_st s ! i)" "unat (t' i) + 10000 < 2 ^ 32"
      "unat u \<le> unat (t' i) + 10000" for i u e v
    by (rule reset_not_due) (use that p2 in simp_all)
  show ?thesis using p1 p2 p3 by blast
qed

theorem auto_reset_sends_when_due_witness:
  "length (mod_st master_caplow) = MODULES
     \<and> master_serial_out (auto_reset (\<lambda>i. 10001) (\<lambda>i. 10002) master_caplow) = ''r2;'' @ [CR, LF]
     \<and> st_error (mod_st (auto_reset (\<lambda>i. 10001) (\<lambda>i. 10002) master_caplow) ! 2) = 0
     \<and> st_last_reset (mod_st (auto_reset (\<lambda>i. 10001) (\<lambda>i. 10002) master_caplow) ! 2) = 10002"
proof -
  have h: "length (mod_st master_caplow) = MODULES"
    by (simp add: master_caplow_def master_boot_def table_zero_def)
  have d: "reset_due 10001 (mod_st master_caplow ! 2)"
    by (simp add: master_caplow_def master_boot_def table_zero_def MODULES_def mod_st_zero_def
        reset_due_def)
  have o: "master_serial_out master_caplow @ concat (map (\<lambda>i. if reset_due 10001 (mod_st master_caplow ! i)
                 then ''r'' @ print_number i @ '';'' @ [CR, LF] else []) [0..<MODULES])
      = ''r2;'' @ [CR, LF]"
    by code_simp
  have i: "(2::nat) < MODULES"
    by (simp add: MODULES_def)
  from auto_reset_sends_when_due [OF h, of "\<lambda>i. 10001" "\<lambda>i. 10002"] h d o i show ?thesis
    by simp
qed

text \<open>
  The claim as stated has the reset sent once \<open>10000\<close> ms have elapsed. With module 2 reporting
  CapLow at 55 V, the last attempt at time 0 and \<^verbatim>\<open>millis()\<close> reading exactly 10000, nothing is
  sent.
\<close>

theorem auto_reset_counterexample:
  "st_error (mod_st master_caplow ! 2) = 5
     \<and> st_v (mod_st master_caplow ! 2) > 50
     \<and> unat (10000 :: 32 word) - unat (st_last_reset (mod_st master_caplow ! 2)) \<ge> 10000
     \<and> master_serial_out (auto_reset (\<lambda>i. 10000) (\<lambda>i. 10000) master_caplow) = []"
  by code_simp



section \<open>Numbers on the wire\<close>

text \<open>What \<^verbatim>\<open>Serial.print\<close> writes for a number is what \<^verbatim>\<open>atoi\<close> reads back.\<close>

lemma isdigit_char_of: "d < 10 \<Longrightarrow> isdigit (char_of (48 + (d::nat)))"
  by (simp add: isdigit_def)

lemma isdigit_plain:
  assumes "isdigit c"
  shows "\<not> isspace c" "c \<noteq> CHR '';''" "c \<noteq> NUL" "c \<noteq> CHR ''-''" "c \<noteq> CHR ''+''"
    "c \<noteq> CHR ''.''" "c \<noteq> CHR '':''" "c \<noteq> CR" "c \<noteq> CHR ''e''" "c \<noteq> CHR ''E''"
  using assms by (auto simp add: isdigit_def isspace_def NUL_def CR_def)

lemma print_number_digits: "c \<in> set (print_number n) \<Longrightarrow> isdigit c"
proof (induction n rule: print_number.induct)
  case (1 n)
  show ?case
  proof (cases "n < 10")
    case True
    then show ?thesis using 1(2) by (simp add: print_number.simps [of n] isdigit_char_of)
  next
    case False
    then show ?thesis using 1 by (auto simp add: print_number.simps [of n] isdigit_char_of)
  qed
qed

lemma print_number_examples:
  "print_number 0 = ''0''" "print_number 100 = ''100''" "print_number 500 = ''500''"
  by code_simp+

lemma print_number_not_Nil: "print_number n \<noteq> []"
  by (simp add: print_number.simps [of n])

lemma atoi_digits_print_number:
  "atoi_digits acc (print_number n @ rest)
     = atoi_digits (acc * 10 ^ length (print_number n) + n) rest"
proof (induction n arbitrary: acc rest rule: print_number.induct)
  case (1 n)
  show ?case
  proof (cases "n < 10")
    case True
    then show ?thesis 
      by (simp add: print_number.simps [of n] isdigit_char_of)
  next
    case False
    have d: "isdigit (char_of (48 + n mod 10))" by (simp add: isdigit_char_of)
    have "atoi_digits acc (print_number n @ rest)
        = atoi_digits acc (print_number (n div 10) @ (char_of (48 + n mod 10) # rest))"
      using False by (simp add: print_number.simps [of n])
    also have "\<dots> = atoi_digits (acc * 10 ^ length (print_number (n div 10)) + n div 10)
         (char_of (48 + n mod 10) # rest)"
      using False by (rule "1.IH")
    also have "\<dots> = atoi_digits ((acc * 10 ^ length (print_number (n div 10)) + n div 10) * 10
         + n mod 10) rest"
      using d by simp
    also have "(acc * 10 ^ length (print_number (n div 10)) + n div 10) * 10 + n mod 10
       = acc * 10 ^ length (print_number n) + n"
      using False by (simp add: print_number.simps [of n] algebra_simps)
    finally show ?thesis .
  qed
qed

lemma atoi_digits_stop: "\<not> (rest \<noteq> [] \<and> isdigit (hd rest)) \<Longrightarrow> atoi_digits a rest = a"
  by (cases rest) auto

lemma atoi_digits_number:
  "\<not> (rest \<noteq> [] \<and> isdigit (hd rest)) \<Longrightarrow> atoi_digits 0 (print_number n @ rest) = n"
  by (simp add: atoi_digits_print_number atoi_digits_stop)

lemma hd_print_number: "isdigit (hd (print_number n @ rest))"
  using print_number_digits [of "hd (print_number n)" n] print_number_not_Nil [of n]
  by simp

lemma atoi_print_number_word:
  assumes "\<not> (rest \<noteq> [] \<and> isdigit (hd rest))"
  shows "atoi (print_number n @ rest) = sint (word_of_nat n :: 16 word)"
proof -
  obtain c cs where e: "print_number n @ rest = c # cs"
    using print_number_not_Nil [of n] by (cases "print_number n @ rest") auto
  have "isdigit c" using hd_print_number [of n rest] e by simp
  then have "\<not> isspace c" "c \<noteq> CHR ''-''" "c \<noteq> CHR ''+''"
    by (simp_all add: isdigit_plain)
  then have "atoi (c # cs) = sint (word_of_nat (atoi_digits 0 (c # cs)) :: 16 word)"
    by (simp add: atoi_def)
  then show ?thesis
    using e atoi_digits_number [OF assms, of n] by simp
qed

lemma sint_small: "n < 32768 \<Longrightarrow> sint (word_of_nat n :: 16 word) = int n"
proof -
  assume "n < 32768"
  have "sint (word_of_int (int n) :: 16 word) = signed_take_bit 15 (int n)"
    using sint_sbintrunc' [of "int n", where 'a = 16] by simp
  also have "\<dots> = int n"
    using \<open>n < 32768\<close> by (simp add: signed_take_bit_int_eq_self)
  finally show ?thesis by simp
qed


lemma atoi_print_number:
  assumes "\<not> (rest \<noteq> [] \<and> isdigit (hd rest))" "n < 32768"
  shows "atoi (print_number n @ rest) = int n"
  using atoi_print_number_word [OF assms(1)] sint_small [OF assms(2)] by simp

lemma length_print_number: "n < 10 ^ k \<Longrightarrow> 0 < k \<Longrightarrow> length (print_number n) \<le> k"
proof (induction n arbitrary: k rule: print_number.induct)
  case (1 n)
  show ?case
  proof (cases "n < 10")
    case True
    then show ?thesis using 1(3) by (simp add: print_number.simps [of n])
  next
    case False
    then obtain k' where k: "k = Suc k'" "0 < k'"
      using 1(2,3) by (cases k; cases "k - 1") auto
    have "n div 10 < 10 ^ k'" using 1(2) k by (simp add: less_mult_imp_div_less mult.commute)
    then have "length (print_number (n div 10)) \<le> k'"
      using "1.IH" [OF False _ k(2)] by simp
    then show ?thesis using False k by (simp add: print_number.simps [of n])
  qed
qed


section \<open>The module's line buffer\<close>

text \<open>
  A white space byte is stored at \<^verbatim>\<open>cli[cli_pos]\<close> without advancing, so the next byte
  overwrites it; any other byte is stored and the position advances, until a semicolon or the
  tenth position closes the line.
\<close>

lemma cli_pos_cli_update:
  "s\<lparr>cli_pos := a, cli := b\<rparr> = s\<lparr>cli := b, cli_pos := a\<rparr>"
  by simp

lemma serial_byte_space:
  "isspace c \<Longrightarrow> serial_byte e rd c s = s\<lparr>cli := (cli s)[cli_pos s := c]\<rparr>"
  by (simp add: serial_byte_def)


lemma serial_input_Cons:
  "serial_input e rd (c # cs) s = serial_input e rd cs (serial_byte e rd c s)"
  by (simp add: serial_input_def)

lemma serial_input_Nil: "serial_input e rd [] s = s"
  by (simp add: serial_input_def)

lemma serial_input_append:
  "serial_input e rd (xs @ ys) s = serial_input e rd ys (serial_input e rd xs s)"
  by (simp add: serial_input_def)



lemma serial_byte_plain:
  assumes "\<not> isspace c" "c \<noteq> CHR '';''" "cli_pos s \<noteq> 9"
  shows "serial_byte e rd c s = s\<lparr>cli := (cli s)[cli_pos s := c], cli_pos := Suc (cli_pos s)\<rparr>"
  using assms by (simp add: serial_byte_def LINE_LENGTH_def)

lemma serial_input_plain:
  assumes "\<forall>c \<in> set cs. \<not> isspace c \<and> c \<noteq> CHR '';''"
    "cli_pos s + length cs \<le> 9" "length (cli s) = 10"
  shows "serial_input e rd cs s
     = s\<lparr>cli := take (cli_pos s) (cli s) @ cs @ drop (cli_pos s + length cs) (cli s),
         cli_pos := cli_pos s + length cs\<rparr>"
  using assms
proof (induction cs arbitrary: s)
  case Nil
  then show ?case by (simp add: serial_input_Nil)
next
  case (Cons c cs)
  let ?k = "cli_pos s"
  let ?s1 = "s\<lparr>cli := (cli s)[?k := c], cli_pos := Suc ?k\<rparr>"
  have k: "?k < length (cli s)" using Cons.prems by simp
  have b: "serial_byte e rd c s = ?s1"
    using Cons.prems by (intro serial_byte_plain) auto
  have t: "take (Suc ?k) ((cli s)[?k := c]) = take ?k (cli s) @ [c]"
    using k by (simp add: take_Suc_conv_app_nth)
  have d: "drop (Suc ?k + length cs) ((cli s)[?k := c]) = drop (Suc ?k + length cs) (cli s)"
    by simp
  have "serial_input e rd (c # cs) s = serial_input e rd cs ?s1"
    using b by (simp add: serial_input_Cons)
  also have "\<dots> = ?s1\<lparr>cli := take (cli_pos ?s1) (cli ?s1) @ cs
          @ drop (cli_pos ?s1 + length cs) (cli ?s1), cli_pos := cli_pos ?s1 + length cs\<rparr>"
    using Cons.prems by (intro Cons.IH) auto
  also have "\<dots> = s\<lparr>cli := take ?k (cli s) @ (c # cs) @ drop (?k + length (c # cs)) (cli s),
         cli_pos := ?k + length (c # cs)\<rparr>"
    using t d by simp
  finally show ?case .
qed

text \<open>The buffer once a line has been closed.\<close>

lemma end_of_line_eq:
  "end_of_line e rd s =
     (if cli_pos s > 1 \<and> atoi (cstr ((cli s)[cli_pos s := NUL]) 1) = uint (module_id s)
      then command e rd (s\<lparr>cli := (cli s)[cli_pos s := NUL]\<rparr>)
      else s\<lparr>cli := (cli s)[cli_pos s := NUL]\<rparr>)\<lparr>cli_pos := 0\<rparr>"
  by (simp add: end_of_line_def Let_def)

lemma serial_byte_end:
  assumes "\<not> isspace t" "t = CHR '';'' \<or> cli_pos s = 9"
  shows "serial_byte e rd t s = end_of_line e rd (s\<lparr>cli := (cli s)[cli_pos s := t]\<rparr>)"
  using assms by (auto simp add: serial_byte_def LINE_LENGTH_def)

lemma cstr_line:
  assumes "0 < k" "k \<le> length cmd"
  shows "cstr (cmd @ NUL # rest) k = cstr cmd k"
proof -
  have "drop k (cmd @ NUL # rest) = drop k cmd @ NUL # rest"
    using assms by simp
  then show ?thesis
    by (simp add: cstr_def takeWhile_tail)
qed

lemma serial_line:
  assumes "cli_pos s = 0" "length (cli s) = LINE_LENGTH"
    "\<forall>c \<in> set cmd. \<not> isspace c \<and> c \<noteq> CHR '';''" "length cmd \<le> 9"
    "\<not> isspace t" "t = CHR '';'' \<or> length cmd = 9"
  shows "serial_input e rd (cmd @ [t]) s =
     (if length cmd > 1 \<and> atoi (cstr cmd 1) = uint (module_id s)
      then command e rd (s\<lparr>cli := cmd @ NUL # drop (Suc (length cmd)) (cli s),
                            cli_pos := length cmd\<rparr>)
      else s\<lparr>cli := cmd @ NUL # drop (Suc (length cmd)) (cli s)\<rparr>)\<lparr>cli_pos := 0\<rparr>"
proof -
  let ?n = "length cmd"
  let ?s1 = "s\<lparr>cli := cmd @ drop ?n (cli s), cli_pos := ?n\<rparr>"
  have l: "length (cli s) = 10" using assms(2) by (simp add: LINE_LENGTH_def)
  have a: "serial_input e rd cmd s = ?s1"
    using serial_input_plain [of cmd s e rd] assms l by simp
  have u: "(cmd @ drop ?n (cli s))[?n := x] = cmd @ x # drop (Suc ?n) (cli s)" for x
    using l assms(4) by (simp add: list_update_append upd_conv_take_nth_drop drop_Suc tl_drop Cons_nth_drop_Suc)
  have "serial_input e rd (cmd @ [t]) s = serial_byte e rd t ?s1"
    using a by (simp add: serial_input_append serial_input_Cons serial_input_Nil)
  also have "\<dots> = end_of_line e rd (?s1\<lparr>cli := (cli ?s1)[cli_pos ?s1 := t]\<rparr>)"
    using assms by (intro serial_byte_end) auto
  also have "\<dots> = end_of_line e rd (s\<lparr>cli := cmd @ t # drop (Suc ?n) (cli s), cli_pos := ?n\<rparr>)"
    by (simp add: u cli_pos_cli_update)
  finally show ?thesis
    using cstr_line [of 1 cmd]
    by (auto simp add: end_of_line_eq cli_pos_cli_update)
qed

lemma serial_input_spaces:
  assumes "\<forall>c \<in> set ws. isspace c"
  shows "serial_input e rd ws s
     = (if ws = [] then s else s\<lparr>cli := (cli s)[cli_pos s := last ws]\<rparr>)"
  using assms
proof (induction ws arbitrary: s)
  case Nil
  then show ?case by (simp add: serial_input_Nil)
next
  case (Cons w ws)
  then show ?case by (simp add: serial_input_Cons serial_byte_space)
qed

lemma length_print_number_id: "length (print_number (unat (i :: 8 word))) \<le> 3"
proof -
  have "unat i < 256" using unsigned_less [of i, where 'a = nat] by simp
  then have "unat i < 10 ^ 3" by simp
  then show ?thesis by (intro length_print_number) auto
qed

lemma atoi_print_id: "atoi (print_number (unat (i :: 8 word))) = uint i"
proof -
  have "unat i < 256" using unsigned_less [of i, where 'a = nat] by simp
  then have "atoi (print_number (unat i) @ []) = int (unat i)"
    by (intro atoi_print_number) auto
  then show ?thesis by simp
qed

lemma cstr_plain: "NUL \<notin> set (drop k cmd) \<Longrightarrow> cstr cmd k = drop k cmd"
  by (auto simp add: cstr_def)

lemma print_number_plain:
  assumes "c \<in> set (print_number n)"
  shows "\<not> isspace c" "c \<noteq> CHR '';''" "c \<noteq> NUL"
  using print_number_digits [OF assms] by (simp_all add: isdigit_plain)

lemma halt_line:
  assumes "cli_pos s = 0" "length (cli s) = LINE_LENGTH"
  shows "serial_input e rd (''h'' @ print_number (unat (module_id s)) @ '';'') s
    = (let s1 = s\<lparr>cli := ''h'' @ print_number (unat (module_id s)) @ NUL
                      # drop (Suc (Suc (length (print_number (unat (module_id s)))))) (cli s),
                   OCR1B := 0, pin := (pin s)(SYS_ENABLE := False, SYS_OUTPUT := False)\<rparr>;
           s2 = (if state s \<noteq> S5 then EEPROM_write EEPROM_ADDRESS_HALTED 1 s1 else s1)
       in s2\<lparr>state := S5, pwm := 0\<rparr>)"
proof -
  let ?d = "print_number (unat (module_id s))"
  let ?cmd = "''h'' @ ?d"
  let ?sL = "s\<lparr>cli := ?cmd @ NUL # drop (Suc (length ?cmd)) (cli s), cli_pos := length ?cmd\<rparr>"
  have p: "\<forall>c \<in> set ?cmd. \<not> isspace c \<and> c \<noteq> CHR '';''"
    using print_number_plain [of _ "unat (module_id s)"]
    by (auto simp add: isspace_def)
  have len: "length ?cmd \<le> 9" "1 < length ?cmd"
    using length_print_number_id [of "module_id s"] print_number_not_Nil [of "unat (module_id s)"]
    by (auto simp add: Suc_lessI)
  have nn: "NUL \<notin> set ?d"
    using print_number_plain(3) [of NUL "unat (module_id s)"] by blast
  have idv: "atoi (cstr ?cmd 1) = uint (module_id s)"
    using nn by (simp add: cstr_plain atoi_print_id)
  have sp: "\<not> isspace (CHR '';'')" by (simp add: isspace_def)
  have A: "serial_input e rd (?cmd @ '';'') s = (command e rd ?sL)\<lparr>cli_pos := 0\<rparr>"
    using serial_line [OF assms(1,2) p len(1) sp, of e rd] len(2) idv by simp
  have B: "command e rd ?sL = cmd_halt ?sL"
    by (simp add: command_def)
  have C: "(cmd_halt ?sL)\<lparr>cli_pos := 0\<rparr>
    = (let s1 = s\<lparr>cli := ''h'' @ ?d @ NUL # drop (Suc (Suc (length ?d))) (cli s),
                   OCR1B := 0, pin := (pin s)(SYS_ENABLE := False, SYS_OUTPUT := False)\<rparr>;
           s2 = (if state s \<noteq> S5 then EEPROM_write EEPROM_ADDRESS_HALTED 1 s1 else s1)
       in s2\<lparr>state := S5, pwm := 0\<rparr>)"
    using assms(1)
    apply (cases "state s = S5")
     apply (simp_all add: cmd_halt_def Let_def digitalWrite_def EEPROM_write_def)
    done
  show ?thesis
    by (simp only: append_assoc [symmetric] A B C)
qed

lemma halt_line_spaces:
  assumes "cli_pos s = 0" "length (cli s) = LINE_LENGTH" "\<forall>c \<in> set ws. isspace c"
  shows "serial_input e rd (''h'' @ print_number (unat (module_id s)) @ '';'' @ ws) s
    = (if ws = [] then halted s else (halted s)\<lparr>cli := (cli (halted s))[0 := last ws]\<rparr>)"
proof -
  have "serial_input e rd (''h'' @ print_number (unat (module_id s)) @ '';'' @ ws) s
     = serial_input e rd ws (serial_input e rd (''h'' @ print_number (unat (module_id s)) @ '';'') s)"
    using serial_input_append [of e rd "''h'' @ print_number (unat (module_id s)) @ '';''" ws s]
    by simp
  also have "\<dots> = serial_input e rd ws (halted s)"
    using halt_line [OF assms(1,2), of e rd] by (simp add: halted_def)
  also have "\<dots> = (if ws = [] then halted s else (halted s)\<lparr>cli := (cli (halted s))[0 := last ws]\<rparr>)"
    using assms(1) serial_input_spaces [OF assms(3), of e rd "halted s"]
    by (simp add: halted_def Let_def EEPROM_write_def)
  finally show ?thesis .
qed

lemma halted_fields:
  "state (halted s) = S5" "pwm (halted s) = 0" "OCR1B (halted s) = 0"
  "\<not> pin (halted s) SYS_ENABLE" "\<not> pin (halted s) SYS_OUTPUT"
  "eeprom_writes (halted s) = eeprom_writes s @ (if state s \<noteq> S5 then [(EEPROM_ADDRESS_HALTED, 1)] else [])"
  "cli_pos (halted s) = cli_pos s" "length (cli s) = LINE_LENGTH \<Longrightarrow> length (cli (halted s)) = LINE_LENGTH"
  "module_id (halted s) = module_id s"
  using length_print_number_id [of "module_id s"]
  by (simp_all add: halted_def Let_def EEPROM_write_def SYS_ENABLE_def SYS_OUTPUT_def LINE_LENGTH_def)

lemma halted_twice:
  assumes "length (cli s) = LINE_LENGTH"
  shows "halted ((halted s)\<lparr>cli := (cli (halted s))[0 := w]\<rparr>) = halted s"
    "halted (halted s) = halted s"
  using assms length_print_number_id [of "module_id s"]
  by (simp_all add: halted_def Let_def EEPROM_write_def LINE_LENGTH_def)









section \<open>Commands addressed to another module\<close>




section \<open>The halt command\<close>

text \<open>
  C7. The line \<^verbatim>\<open>h<id>;\<close> with this module's id, arriving at the start of a line (followed or
  not by white space, as the master's \<^verbatim>\<open>println\<close> sends it), leaves the module in S5 with
  duty and compare register 0 and with the drive and the relay low; the halted latch is
  written to the EEPROM by that call exactly when the module was not in S5 before. A second
  identical line leaves the module exactly as the first one left it: the same end state, and no
  further EEPROM write.
\<close>

theorem halt_command_idempotent:
  assumes "cli_pos s = 0" "length (cli s) = LINE_LENGTH" "\<forall>c \<in> set ws. isspace c"
  shows "let line = ''h'' @ print_number (unat (module_id s)) @ '';'' @ ws;
             s1 = serial_input e rd line s;
             s2 = serial_input e rd line s1
         in state s1 = S5 \<and> pwm s1 = 0 \<and> OCR1B s1 = 0
            \<and> \<not> pin s1 SYS_ENABLE \<and> \<not> pin s1 SYS_OUTPUT
            \<and> eeprom_writes s1 = eeprom_writes s
                 @ (if state s \<noteq> S5 then [(EEPROM_ADDRESS_HALTED, 1)] else [])
            \<and> s2 = s1"
proof -
  define line where "line = ''h'' @ print_number (unat (module_id s)) @ '';'' @ ws"
  define s1 where "s1 = serial_input e rd line s"
  have e1: "s1 = (if ws = [] then halted s else (halted s)\<lparr>cli := (cli (halted s))[0 := last ws]\<rparr>)"
    unfolding s1_def line_def by (rule halt_line_spaces [OF assms])
  have f: "state s1 = S5" "pwm s1 = 0" "OCR1B s1 = 0" "\<not> pin s1 SYS_ENABLE" "\<not> pin s1 SYS_OUTPUT"
    "eeprom_writes s1 = eeprom_writes s @ (if state s \<noteq> S5 then [(EEPROM_ADDRESS_HALTED, 1)] else [])"
    "cli_pos s1 = 0" "length (cli s1) = LINE_LENGTH" "module_id s1 = module_id s"
    using assms(1,2) by (simp_all add: e1 halted_fields)
  have l: "line = ''h'' @ print_number (unat (module_id s1)) @ '';'' @ ws"
    by (simp add: line_def f(9))
  have "serial_input e rd line s1
     = (if ws = [] then halted s1 else (halted s1)\<lparr>cli := (cli (halted s1))[0 := last ws]\<rparr>)"
    unfolding l by (rule halt_line_spaces [OF f(7,8) assms(3)])
  also have "halted s1 = halted s"
    using assms(2) by (simp add: e1 halted_twice)
  finally have "serial_input e rd line s1 = s1"
    using e1 by simp
  then have "state s1 = S5 \<and> pwm s1 = 0 \<and> OCR1B s1 = 0
            \<and> \<not> pin s1 SYS_ENABLE \<and> \<not> pin s1 SYS_OUTPUT
            \<and> eeprom_writes s1 = eeprom_writes s
                 @ (if state s \<noteq> S5 then [(EEPROM_ADDRESS_HALTED, 1)] else [])
            \<and> serial_input e rd line s1 = s1"
    using f by simp
  then show ?thesis
    unfolding Let_def s1_def line_def .
qed

theorem halt_command_idempotent_witness:
  "cli_pos module_boot = 0 \<and> length (cli module_boot) = LINE_LENGTH
     \<and> state (serial_input env_still readings_short (''h0;'' @ [CR, LF]) module_boot) = S5
     \<and> eeprom_writes (serial_input env_still readings_short (''h0;'' @ [CR, LF]) module_boot)
          = [(EEPROM_ADDRESS_HALTED, 1)]
     \<and> serial_input env_still readings_short (''h0;'' @ [CR, LF])
          (serial_input env_still readings_short (''h0;'' @ [CR, LF]) module_boot)
        = serial_input env_still readings_short (''h0;'' @ [CR, LF]) module_boot"
proof -
  have h: "cli_pos module_boot = 0" "length (cli module_boot) = LINE_LENGTH"
    "\<forall>c \<in> set [CR, LF]. isspace c"
    by (simp_all add: module_boot_def setup_module_def isspace_def CR_def LF_def)
  have l: "''h'' @ print_number (unat (module_id module_boot)) @ '';'' @ [CR, LF]
      = ''h0;'' @ [CR, LF]"
    by (simp add: module_boot_def setup_module_def print_number_examples)
  have i: "state module_boot \<noteq> S5" "eeprom_writes module_boot = []"
    by (simp_all add: module_boot_def setup_module_def)
  from halt_command_idempotent [OF h, of env_still readings_short] h i show ?thesis
    unfolding Let_def l by simp
qed


section \<open>The power limit command\<close>





section \<open>The duty stays below the top of the timer\<close>




















section \<open>Single-precision rounding\<close>

text \<open>
  What is needed of \<open>fl\<close>: the exponent found by \<open>exponent2\<close> brackets its argument, the
  rounded value is within half a unit in the last place (a relative error of at most
  \<open>2 ^ -24\<close>), and a number that has a 24-bit significand is left as it is.
\<close>

lemma p2_pos [simp]: "0 < (2::real) powi k"
  by (simp add: zero_less_power_int)














lemma rounding_2: "rounding 2 = 5368709 / 1073741824"
  by (simp add: numeral_2_eq_2 fl_def exponent2.simps round_even_def Let_def)





section \<open>The information line, from the module to the master's table\<close>

text \<open>What \<^verbatim>\<open>Serial.print\<close> writes for a float within the range of \<^verbatim>\<open>printFloat\<close>.\<close>

lemma print_float_eq:
  assumes "\<bar>x\<bar> \<le> 4294967040"
  defines "n \<equiv> fl (\<bar>x\<bar> + rounding 2)"
  defines "ip \<equiv> nat \<lfloor>n\<rfloor>"
  defines "r0 \<equiv> fl (n - fl (real ip))"
  defines "q1 \<equiv> fl (r0 * 10)"
  defines "d1 \<equiv> nat \<lfloor>q1\<rfloor>"
  defines "r1 \<equiv> fl (q1 - fl (real d1))"
  defines "q2 \<equiv> fl (r1 * 10)"
  defines "d2 \<equiv> nat \<lfloor>q2\<rfloor>"
  shows "print_float x =
     (if x < 0 then ''-'' else []) @ print_number ip @ ''.'' @ print_number d1 @ print_number d2"
proof -
  have a: "(if x < 0 then - x else x) = \<bar>x\<bar>"
    by simp
  have b: "\<not> x > 4294967040" "\<not> x < - 4294967040"
    using assms(1) by linarith+
  show ?thesis
    unfolding print_float_def printFloat_def n_def ip_def r0_def q1_def d1_def r1_def q2_def d2_def
    by (simp only: b if_False Let_def a numeral_2_eq_2 print_frac.simps) simp
qed











lemma set_slot_twice:
  "nat m < length t \<Longrightarrow> set_slot m f (set_slot m g t) = set_slot m (\<lambda>r. f (g r)) t"
  by (simp add: set_slot_def)










text \<open>The line a quiet pass produces, evaluated.\<close>

lemma char_of_digit:
  "char_of (48 :: nat) = CHR ''0''" "char_of (49 :: nat) = CHR ''1''"
  "char_of (50 :: nat) = CHR ''2''" "char_of (51 :: nat) = CHR ''3''"
  "char_of (52 :: nat) = CHR ''4''" "char_of (53 :: nat) = CHR ''5''"
  "char_of (54 :: nat) = CHR ''6''" "char_of (55 :: nat) = CHR ''7''"
  "char_of (56 :: nat) = CHR ''8''" "char_of (57 :: nat) = CHR ''9''"
  by code_simp+






text \<open>
  The numeral is computed in single precision and is not always the one exact rounding would
  give: the float nearest to 23.0750008 is printed as \<^verbatim>\<open>23.07\<close>.
\<close>

lemma print_float_inexact: "print_float (6048973 / 262144) = ''23.07''"
  using print_float_eq [of "6048973 / 262144"]
  by (simp add: rounding_2 fl_def exponent2.simps round_even_def Let_def print_number.simps
      char_of_digit)





end
